theory Spec2Isabelle
  imports Complex_Main "HOL-Library.AList" "HOL-Library.Char_ord" "HOL-Library.List_Lexorder"
begin

section \<open>Python primitives used by schedule.py\<close>

text \<open>
  Python integers are unbounded: they are \<open>int\<close>. \<open>//\<close> and \<open>%\<close> round towards minus
  infinity, as \<open>div\<close> and \<open>mod\<close> on \<open>int\<close> do; division by zero raises, which the
  callers below write out. \<open>/\<close> on two integers is true division; the quotient is kept
  exact, as a rational (the source computes it in binary floating point).
  Strings are compared lexicographically by character code (\<open>Char_ord\<close>,
  \<open>List_Lexorder\<close>), a proper prefix being smaller.
\<close>

definition range_py :: "int \<Rightarrow> int list" where
  \<comment> \<open>\<open>range(n)\<close>: 0, 1, ..., n - 1; empty when \<open>n \<le> 0\<close>.\<close>
  "range_py n = [0..n - 1]"

definition digit_char :: "nat \<Rightarrow> char" where
  "digit_char d = ''0123456789'' ! d"

fun str_nat :: "nat \<Rightarrow> string" where
  "str_nat n = (if n < 10 then [digit_char n] else str_nat (n div 10) @ [digit_char (n mod 10)])"

declare str_nat.simps [simp del]

definition str :: "int \<Rightarrow> string" where
  \<comment> \<open>\<open>str(i)\<close> of an integer: decimal digits, with a leading minus sign below zero.\<close>
  "str i = (if i < 0 then CHR ''-'' # str_nat (nat (- i)) else str_nat (nat i))"

definition chunk_name :: "string \<Rightarrow> int \<Rightarrow> string" where
  \<comment> \<open>The f-string \<open>f"{task}_{i}"\<close>.\<close>
  "chunk_name task i = task @ ''_'' @ str i"

datatype error =
    ZeroDivisionError
  | OverflowError
  | ValueError
  | DuplicateVariableError
  | UnknownVariableError
  | ConfigurationError
  | InfeasibleTaskError

text \<open>
  \<open>ZeroDivisionError\<close> and \<open>OverflowError\<close> are Python's own, \<open>ValueError\<close> is what
  dimod raises for an argument it refuses. The other four are the error kinds the
  specification names; schedule.py defines and raises none of them.
  A loop whose body may raise stops at the first error.
\<close>

fun efold :: "('a \<Rightarrow> 's \<Rightarrow> error + 's) \<Rightarrow> 'a list \<Rightarrow> 's \<Rightarrow> error + 's" where
  "efold f [] s = Inr s"
| "efold f (x # xs) s = (case f x s of Inl e \<Rightarrow> Inl e | Inr s' \<Rightarrow> efold f xs s')"

fun emap :: "('a \<Rightarrow> error + 'b) \<Rightarrow> 'a list \<Rightarrow> error + 'b list" where
  \<comment> \<open>A list comprehension whose element expression may raise.\<close>
  "emap f [] = Inr []"
| "emap f (x # xs) =
     (case f x of
        Inl e \<Rightarrow> Inl e
      | Inr y \<Rightarrow> (case emap f xs of Inl e \<Rightarrow> Inl e | Inr ys \<Rightarrow> Inr (y # ys)))"

subsection \<open>Binary floating point\<close>

text \<open>
  A Python float is an IEEE 754 binary64 number; a finite one is kept here as the
  rational it denotes. \<open>rn_quot a b\<close> is the quotient \<open>a / b\<close> of two integers
  (\<open>b > 0\<close>) rounded to the nearest such number, ties to the even significand, with
  gradual underflow and no bound above: with \<open>2^e \<le> |a / b| < 2^(e+1)\<close> the result is a
  multiple of \<open>2^u\<close>, where \<open>u = max e (-1022) - 52\<close>.
\<close>

function bit_length :: "int \<Rightarrow> int" where
  \<comment> \<open>\<open>n.bit_length()\<close> for \<open>n \<ge> 0\<close>.\<close>
  "bit_length n = (if n \<le> 0 then 0 else 1 + bit_length (n div 2))"
  by pat_completeness auto
termination
  by (relation "measure nat") auto

declare bit_length.simps [simp del]

definition rn_quot :: "int \<Rightarrow> int \<Rightarrow> rat" where
  "rn_quot a b =
     (if a = 0 then 0
      else
        let n = \<bar>a\<bar>;
            k = bit_length n - bit_length b;
            e = (if b * 2 ^ nat k \<le> n * 2 ^ nat (- k) then k else k - 1);
            u = max e (- 1022) - 52;
            N = n * 2 ^ nat (- u);
            D = b * 2 ^ nat u;
            f = N div D;
            r = N mod D;
            m = (if 2 * r < D then f else if D < 2 * r then f + 1
                 else if even f then f else f + 1)
        in of_int (sgn a * m) * 2 powi u)"

definition double :: "rat \<Rightarrow> rat" where
  \<comment> \<open>A rational rounded to binary64.\<close>
  "double x = (case quotient_of x of (p, q) \<Rightarrow> rn_quot p q)"

definition truediv :: "int \<Rightarrow> int \<Rightarrow> error + rat" where
  \<comment> \<open>\<open>a / b\<close> on two Python integers: the correctly rounded quotient, or
      \<open>OverflowError\<close> when it is too large for a float.\<close>
  "truediv a b =
     (if b = 0 then Inl ZeroDivisionError
      else
        let q = (if b < 0 then rn_quot (- a) (- b) else rn_quot a b)
        in if 2 ^ 1024 \<le> \<bar>q\<bar> then Inl OverflowError else Inr q)"

definition float_add :: "rat \<Rightarrow> rat \<Rightarrow> rat" where
  \<comment> \<open>\<open>x + y\<close> on two floats (an integer operand is converted first, exactly for the
      small integers of this program): the exact sum, rounded.\<close>
  "float_add x y = double (x + y)"

section \<open>Data\<close>

text \<open>
  A task (and a chunk) is the dictionary \<open>{"duration", "deadline", "priority"}\<close>;
  \<open>self.tasks\<close> is a dictionary from names to such entries, kept as an association list
  in insertion order (\<open>AList.update\<close> overwrites in place and appends a new key, as
  assignment to a key of a Python dictionary does).
\<close>

record task_info =
  duration :: int
  deadline :: int
  priority :: int

type_synonym tasks = "(string \<times> task_info) list"

subsection \<open>The discrete quadratic model\<close>

text \<open>
  Modelled from the spec: \<open>dimod.DiscreteQuadraticModel\<close> is an external library and is
  not under src/. The operations follow section 4.5 of the specification:
  \<open>add_variable\<close> registers a label with its number of cases, \<open>set_linear\<close> overwrites
  the bias vector of a registered variable, \<open>set_quadratic\<close> merges entries into the
  table of the unordered pair of two registered variables, and an operation on a label
  that was not registered (or registered twice) fails.
\<close>

record discrete_quadratic_model =
  dqm_variables :: "(string \<times> int) list"
  dqm_linear :: "string \<rightharpoonup> rat list"
  dqm_quadratic :: "((string \<times> string) \<times> (int \<times> int)) \<rightharpoonup> rat"

definition DiscreteQuadraticModel :: discrete_quadratic_model where
  "DiscreteQuadraticModel =
     \<lparr>dqm_variables = [], dqm_linear = Map.empty, dqm_quadratic = Map.empty\<rparr>"

definition registered :: "discrete_quadratic_model \<Rightarrow> string \<Rightarrow> bool" where
  "registered dqm v = (map_of (dqm_variables dqm) v \<noteq> None)"

definition add_variable ::
  "int \<Rightarrow> string \<Rightarrow> discrete_quadratic_model \<Rightarrow> error + discrete_quadratic_model" where
  \<comment> \<open>Modelled from the spec: \<open>add_variable(chunk, domain_size)\<close> registers a chunk with
      its domain cardinality; a label registered before is a \<open>DuplicateVariableError\<close>.\<close>
  "add_variable num_cases label dqm =
     (if registered dqm label then Inl DuplicateVariableError
      else Inr (dqm\<lparr>dqm_variables := dqm_variables dqm @ [(label, num_cases)]\<rparr>))"

definition dimod_add_variable ::
  "int \<Rightarrow> string \<Rightarrow> discrete_quadratic_model \<Rightarrow> error + discrete_quadratic_model" where
  \<comment> \<open>\<open>add_variable\<close> as dimod has it: a number of cases below 1 is refused with
      \<open>ValueError\<close> and nothing is registered. Section 4.5 does not say so (section 3
      asks for a non-empty domain); otherwise it is \<open>add_variable\<close> above.\<close>
  "dimod_add_variable num_cases label dqm =
     (if num_cases \<le> 0 then Inl ValueError else add_variable num_cases label dqm)"

definition set_linear ::
  "string \<Rightarrow> rat list \<Rightarrow> discrete_quadratic_model \<Rightarrow> error + discrete_quadratic_model" where
  \<comment> \<open>Modelled from the spec: \<open>set_linear(chunk, bias_vector)\<close> overwrites any prior
      bias vector of the chunk.\<close>
  "set_linear v biases dqm =
     (if registered dqm v then Inr (dqm\<lparr>dqm_linear := (dqm_linear dqm)(v \<mapsto> biases)\<rparr>)
      else Inl UnknownVariableError)"

definition get_linear :: "string \<Rightarrow> discrete_quadratic_model \<Rightarrow> error + rat list" where
  \<comment> \<open>Modelled from the spec: the bias vector last set for the chunk.\<close>
  "get_linear v dqm =
     (case dqm_linear dqm v of None \<Rightarrow> Inl UnknownVariableError | Some biases \<Rightarrow> Inr biases)"

definition quad_key ::
  "string \<Rightarrow> int \<Rightarrow> string \<Rightarrow> int \<Rightarrow> (string \<times> string) \<times> (int \<times> int)" where
  \<comment> \<open>The table of a pair is kept once, under the pair's smaller label first.\<close>
  "quad_key u cu v cv = (if u \<le> v then ((u, v), (cu, cv)) else ((v, u), (cv, cu)))"

definition set_quadratic ::
  "string \<Rightarrow> string \<Rightarrow> ((int \<times> int) \<times> rat) list \<Rightarrow> discrete_quadratic_model
     \<Rightarrow> error + discrete_quadratic_model" where
  \<comment> \<open>Modelled from the spec: \<open>set_quadratic(c1, c2, penalty_table)\<close> registers or
      merges penalty entries for the unordered pair, failing if a chunk was not
      registered.\<close>
  "set_quadratic u v biases dqm =
     (if registered dqm u \<and> registered dqm v
      then Inr (dqm\<lparr>dqm_quadratic :=
                  fold (\<lambda>((cu, cv), bias) q. q(quad_key u cu v cv \<mapsto> bias)) biases
                    (dqm_quadratic dqm)\<rparr>)
      else Inl UnknownVariableError)"

text \<open>The read-only view of the model: cardinality, one bias, one pairwise entry.\<close>

definition num_cases :: "discrete_quadratic_model \<Rightarrow> string \<Rightarrow> int option" where
  "num_cases dqm v = map_of (dqm_variables dqm) v"

definition get_linear_case :: "discrete_quadratic_model \<Rightarrow> string \<Rightarrow> int \<Rightarrow> rat option" where
  "get_linear_case dqm v c =
     (case dqm_linear dqm v of
        None \<Rightarrow> None
      | Some biases \<Rightarrow> if 0 \<le> c \<and> nat c < length biases then Some (biases ! nat c) else None)"

definition get_quadratic_case ::
  "discrete_quadratic_model \<Rightarrow> string \<Rightarrow> int \<Rightarrow> string \<Rightarrow> int \<Rightarrow> rat option" where
  "get_quadratic_case dqm u cu v cv = dqm_quadratic dqm (quad_key u cu v cv)"

section \<open>TaskScheduler\<close>

record task_scheduler =
  self_num_days :: int
  self_max_task_duration :: int
  self_tasks :: tasks
  self_max_deadline :: int
  self_unavailable_hours :: "int set"
  self_favorite_hours :: "int set"
  self_dqm :: discrete_quadratic_model

definition split_task :: "int \<Rightarrow> string \<times> task_info \<Rightarrow> tasks \<Rightarrow> error + tasks" where
  \<comment> \<open>The body of the loop of \<open>_split_tasks\<close> (lines 91 to 109) for one task.\<close>
  "split_task max_task_duration = (\<lambda>(task, info) split_tasks.
     if max_task_duration = 0 then Inl ZeroDivisionError
     else
       let num_chunks = duration info div max_task_duration;
           remainder = duration info mod max_task_duration;
           split_tasks =
             fold (\<lambda>i. AList.update (chunk_name task i)
                     \<lparr>duration = max_task_duration, deadline = deadline info,
                      priority = priority info\<rparr>)
               (range_py num_chunks) split_tasks
       in Inr (if remainder > 0
               then AList.update (chunk_name task num_chunks)
                      \<lparr>duration = remainder, deadline = deadline info,
                       priority = priority info\<rparr> split_tasks
               else split_tasks))"

definition split_tasks :: "int \<Rightarrow> tasks \<Rightarrow> error + tasks" where
  "split_tasks max_task_duration tasks = efold (split_task max_task_duration) tasks []"

definition start_times :: "int \<Rightarrow> task_info \<Rightarrow> int list" where
  \<comment> \<open>\<open>range(self.max_deadline - info['duration'] + 1)\<close>, which every pass iterates.\<close>
  "start_times max_deadline info = range_py (max_deadline - duration info + 1)"

definition add_variables ::
  "int \<Rightarrow> tasks \<Rightarrow> discrete_quadratic_model \<Rightarrow> error + discrete_quadratic_model" where
  "add_variables max_deadline tasks =
     efold (\<lambda>(task, info).
       let num_start_times = max_deadline - duration info + 1
       in add_variable num_start_times task) tasks"

definition for_task_pairs ::
  "(string \<times> task_info \<Rightarrow> string \<times> task_info \<Rightarrow> 's \<Rightarrow> error + 's) \<Rightarrow> tasks \<Rightarrow> 's \<Rightarrow> error + 's" where
  \<comment> \<open>Lines 60 to 62: the two loops over \<open>self.tasks.items()\<close> and the guard.\<close>
  "for_task_pairs body tasks =
     efold (\<lambda>(task1, info1).
       efold (\<lambda>(task2, info2) s.
         if task1 < task2 then body (task1, info1) (task2, info2) s else Inr s) tasks) tasks"

definition overlap_penalties ::
  "int \<Rightarrow> string \<times> task_info \<Rightarrow> string \<times> task_info \<Rightarrow> discrete_quadratic_model
     \<Rightarrow> error + discrete_quadratic_model" where
  \<comment> \<open>Lines 63 to 66, with \<open>penalty = 10\<close> of line 59.\<close>
  "overlap_penalties max_deadline = (\<lambda>(task1, info1) (task2, info2).
     let penalty = 10 in
     efold (\<lambda>t1.
       efold (\<lambda>t2 dqm.
         if (t1 \<le> t2 \<and> t2 < t1 + duration info1) \<or> (t2 \<le> t1 \<and> t1 < t2 + duration info2)
         then set_quadratic task1 task2 [((t1, t2), penalty)] dqm
         else Inr dqm) (start_times max_deadline info2)) (start_times max_deadline info1))"

definition add_constraints_and_penalties ::
  "int \<Rightarrow> tasks \<Rightarrow> discrete_quadratic_model \<Rightarrow> error + discrete_quadratic_model" where
  "add_constraints_and_penalties max_deadline tasks =
     for_task_pairs (overlap_penalties max_deadline) tasks"

definition add_deadline_and_unavailable_penalties ::
  "int \<Rightarrow> int set \<Rightarrow> tasks \<Rightarrow> discrete_quadratic_model \<Rightarrow> error + discrete_quadratic_model" where
  "add_deadline_and_unavailable_penalties max_deadline unavailable_hours tasks =
     (let deadline_penalty = 10; unavailable_penalty = 10 in
      efold (\<lambda>(task, info).
        let penalties =
              map (\<lambda>t. if t + duration info > deadline info then deadline_penalty else 0)
                (start_times max_deadline info);
            unavailable_penalties =
              map (\<lambda>t. if t \<in> unavailable_hours then unavailable_penalty else 0)
                (start_times max_deadline info);
            combined_penalties =
              map (\<lambda>(penalty, unavailable_penalty). penalty + unavailable_penalty)
                (zip penalties unavailable_penalties)
        in set_linear task combined_penalties) tasks)"

definition add_priority_rewards ::
  "int \<Rightarrow> int set \<Rightarrow> tasks \<Rightarrow> discrete_quadratic_model \<Rightarrow> error + discrete_quadratic_model" where
  "add_priority_rewards max_deadline favorite_hours tasks =
     (let reward_factor = 1; favorite_hour_reward = 1 in
      efold (\<lambda>(task, info) dqm.
        let rewards =
              map (\<lambda>t. of_int (reward_factor * priority info) / of_int (t + 1))
                (start_times max_deadline info);
            favorite_hour_rewards =
              map (\<lambda>t. if t \<in> favorite_hours then favorite_hour_reward else 0)
                (start_times max_deadline info);
            combined_rewards =
              map (\<lambda>(reward, favorite_hour_reward). reward + favorite_hour_reward)
                (zip rewards favorite_hour_rewards)
        in case get_linear task dqm of
             Inl e \<Rightarrow> Inl e
           | Inr current_penalties \<Rightarrow>
               let combined_biases =
                     map (\<lambda>(penalty, reward). penalty + reward)
                       (zip current_penalties combined_rewards)
               in set_linear task combined_biases dqm) tasks)"

definition init ::
  "tasks \<Rightarrow> int \<Rightarrow> int set \<Rightarrow> int \<Rightarrow> int set \<Rightarrow> error + task_scheduler" where
  \<comment> \<open>\<open>__init__\<close>, from line 15 on; the three arguments that name files are taken as
      read (\<open>_read_tasks\<close>, \<open>_read_unavailable_hours\<close>, \<open>_read_favorite_hours\<close>).\<close>
  "init tasks_read num_days unavailable_hours max_task_duration favorite_hours =
     (case split_tasks max_task_duration tasks_read of
        Inl e \<Rightarrow> Inl e
      | Inr tasks \<Rightarrow>
          (let max_deadline = num_days * 24 in
           (case add_variables max_deadline tasks DiscreteQuadraticModel of
              Inl e \<Rightarrow> Inl e
            | Inr dqm1 \<Rightarrow>
           (case add_constraints_and_penalties max_deadline tasks dqm1 of
              Inl e \<Rightarrow> Inl e
            | Inr dqm2 \<Rightarrow>
           (case add_deadline_and_unavailable_penalties max_deadline unavailable_hours tasks dqm2 of
              Inl e \<Rightarrow> Inl e
            | Inr dqm3 \<Rightarrow>
           (case add_priority_rewards max_deadline favorite_hours tasks dqm3 of
              Inl e \<Rightarrow> Inl e
            | Inr dqm4 \<Rightarrow>
                Inr \<lparr>self_num_days = num_days, self_max_task_duration = max_task_duration,
                     self_tasks = tasks, self_max_deadline = max_deadline,
                     self_unavailable_hours = unavailable_hours,
                     self_favorite_hours = favorite_hours, self_dqm = dqm4\<rparr>))))))"

subsection \<open>The constructor against dimod and binary64\<close>

text \<open>
  \<open>init\<close> above runs \<open>__init__\<close> on the model of section 4.5 with exact arithmetic.
  \<open>init_dimod\<close> runs the same lines with \<open>add_variable\<close> as dimod has it and with the
  arithmetic of lines 81 to 85 in binary64: \<open>priority / (t + 1)\<close> is the true division of
  two integers, and both additions are float additions (the biases \<open>get_linear\<close> returns
  are floats). The penalties of the first pass are the integers 0, 10 and 20, which are
  floats exactly.
\<close>

definition add_variables_dimod ::
  "int \<Rightarrow> tasks \<Rightarrow> discrete_quadratic_model \<Rightarrow> error + discrete_quadratic_model" where
  "add_variables_dimod max_deadline tasks =
     efold (\<lambda>(task, info).
       let num_start_times = max_deadline - duration info + 1
       in dimod_add_variable num_start_times task) tasks"

definition add_priority_rewards_double ::
  "int \<Rightarrow> int set \<Rightarrow> tasks \<Rightarrow> discrete_quadratic_model \<Rightarrow> error + discrete_quadratic_model" where
  "add_priority_rewards_double max_deadline favorite_hours tasks =
     (let reward_factor = 1; favorite_hour_reward = 1 in
      efold (\<lambda>(task, info) dqm.
        case emap (\<lambda>t. truediv (reward_factor * priority info) (t + 1))
               (start_times max_deadline info) of
          Inl e \<Rightarrow> Inl e
        | Inr rewards \<Rightarrow>
            let favorite_hour_rewards =
                  map (\<lambda>t. if t \<in> favorite_hours then favorite_hour_reward else 0)
                    (start_times max_deadline info);
                combined_rewards =
                  map (\<lambda>(reward, favorite_hour_reward). float_add reward favorite_hour_reward)
                    (zip rewards favorite_hour_rewards)
            in (case get_linear task dqm of
                  Inl e \<Rightarrow> Inl e
                | Inr current_penalties \<Rightarrow>
                    let combined_biases =
                          map (\<lambda>(penalty, reward). float_add penalty reward)
                            (zip current_penalties combined_rewards)
                    in set_linear task combined_biases dqm)) tasks)"

definition init_dimod ::
  "tasks \<Rightarrow> int \<Rightarrow> int set \<Rightarrow> int \<Rightarrow> int set \<Rightarrow> error + task_scheduler" where
  "init_dimod tasks_read num_days unavailable_hours max_task_duration favorite_hours =
     (case split_tasks max_task_duration tasks_read of
        Inl e \<Rightarrow> Inl e
      | Inr tasks \<Rightarrow>
          (let max_deadline = num_days * 24 in
           (case add_variables_dimod max_deadline tasks DiscreteQuadraticModel of
              Inl e \<Rightarrow> Inl e
            | Inr dqm1 \<Rightarrow>
           (case add_constraints_and_penalties max_deadline tasks dqm1 of
              Inl e \<Rightarrow> Inl e
            | Inr dqm2 \<Rightarrow>
           (case add_deadline_and_unavailable_penalties max_deadline unavailable_hours tasks dqm2 of
              Inl e \<Rightarrow> Inl e
            | Inr dqm3 \<Rightarrow>
           (case add_priority_rewards_double max_deadline favorite_hours tasks dqm3 of
              Inl e \<Rightarrow> Inl e
            | Inr dqm4 \<Rightarrow>
                Inr \<lparr>self_num_days = num_days, self_max_task_duration = max_task_duration,
                     self_tasks = tasks, self_max_deadline = max_deadline,
                     self_unavailable_hours = unavailable_hours,
                     self_favorite_hours = favorite_hours, self_dqm = dqm4\<rparr>))))))"

text \<open>What a finished construction exposes; \<open>None\<close> when construction failed.\<close>

definition cases_of :: "error + task_scheduler \<Rightarrow> string \<Rightarrow> int option" where
  "cases_of r v = (case r of Inl e \<Rightarrow> None | Inr self \<Rightarrow> num_cases (self_dqm self) v)"

definition bias_of :: "error + task_scheduler \<Rightarrow> string \<Rightarrow> int \<Rightarrow> rat option" where
  "bias_of r v c = (case r of Inl e \<Rightarrow> None | Inr self \<Rightarrow> get_linear_case (self_dqm self) v c)"

definition penalty_of :: "error + task_scheduler \<Rightarrow> string \<Rightarrow> int \<Rightarrow> string \<Rightarrow> int \<Rightarrow> rat option" where
  "penalty_of r u cu v cv =
     (case r of Inl e \<Rightarrow> None | Inr self \<Rightarrow> get_quadratic_case (self_dqm self) u cu v cv)"

subsection \<open>The chunking rule in the specification's words\<close>

definition spec_chunks :: "int \<Rightarrow> string \<Rightarrow> task_info \<Rightarrow> tasks" where
  \<comment> \<open>Section 4.1: \<open>num_full\<close> chunks of duration \<open>max_chunk_duration\<close>, indexed
      \<open>0..num_full-1\<close>, then, if \<open>remainder > 0\<close>, one more chunk of duration
      \<open>remainder\<close> at index \<open>num_full\<close>; deadline and priority are the parent's.\<close>
  "spec_chunks max_chunk_duration task info =
     (let num_full = duration info div max_chunk_duration;
          remainder = duration info mod max_chunk_duration
      in map (\<lambda>i. (chunk_name task i,
                    \<lparr>duration = max_chunk_duration, deadline = deadline info,
                     priority = priority info\<rparr>)) [0..num_full - 1]
         @ (if remainder > 0
            then [(chunk_name task num_full,
                   \<lparr>duration = remainder, deadline = deadline info,
                    priority = priority info\<rparr>)]
            else []))"

subsection \<open>The entries of the pairwise table, as a set\<close>

text \<open>
  The keys that the two inner loops of \<open>_add_constraints_and_penalties\<close> write for one
  pair of tasks, and the keys its four loops write in all.
\<close>

definition overlap_keys ::
  "int \<Rightarrow> string \<times> task_info \<Rightarrow> string \<times> task_info \<Rightarrow> ((string \<times> string) \<times> (int \<times> int)) set" where
  "overlap_keys h p1 p2 =
     {quad_key (fst p1) t1 (fst p2) t2 | t1 t2.
        t1 \<in> set (start_times h (snd p1)) \<and> t2 \<in> set (start_times h (snd p2))
        \<and> ((t1 \<le> t2 \<and> t2 < t1 + duration (snd p1)) \<or> (t2 \<le> t1 \<and> t1 < t2 + duration (snd p2)))}"

definition conflict_keys :: "int \<Rightarrow> tasks \<Rightarrow> ((string \<times> string) \<times> (int \<times> int)) set" where
  "conflict_keys h tasks =
     (\<Union>p1\<in>set tasks. \<Union>p2\<in>set tasks. if fst p1 < fst p2 then overlap_keys h p1 p2 else {})"

subsection \<open>The pairs the conflict loops visit\<close>


section \<open>Decimal names are unambiguous\<close>

lemma digit_char_mem: "d < 10 \<Longrightarrow> digit_char d \<in> set ''0123456789''"
  unfolding digit_char_def by (rule nth_mem) simp

lemma digit_char_inj: "a < 10 \<Longrightarrow> b < 10 \<Longrightarrow> digit_char a = digit_char b \<Longrightarrow> a = b"
proof -
  assume a: "a < 10" and b: "b < 10" and e: "digit_char a = digit_char b"
  have d: "distinct ''0123456789''" by simp
  have "a < length ''0123456789''" "b < length ''0123456789''" using a b by simp_all
  with d e show "a = b" unfolding digit_char_def by (simp only: nth_eq_iff_index_eq)
qed

lemma set_str_nat: "set (str_nat n) \<subseteq> set ''0123456789''"
proof (induction n rule: str_nat.induct)
  case (1 n)
  show ?case
  proof (cases "n < 10")
    case True
    then show ?thesis using digit_char_mem[of n] by (subst str_nat.simps) simp
  next
    case False
    have "n mod 10 < 10" by simp
    then have "digit_char (n mod 10) \<in> set ''0123456789''" by (rule digit_char_mem)
    with False 1 show ?thesis by (subst str_nat.simps) simp
  qed
qed

lemma str_nat_nonempty: "str_nat n \<noteq> []"
  by (subst str_nat.simps) simp

lemma str_nat_inj: "str_nat a = str_nat b \<Longrightarrow> a = b"
proof (induction a arbitrary: b rule: str_nat.induct)
  case (1 n)
  show ?case
  proof (cases "n < 10")
    case True
    then have n: "str_nat n = [digit_char n]" by (subst str_nat.simps) simp
    show ?thesis
    proof (cases "b < 10")
      case True
      then have "str_nat b = [digit_char b]" by (subst str_nat.simps) simp
      with n 1(2) \<open>n < 10\<close> True show ?thesis by (simp add: digit_char_inj)
    next
      case False
      then have "str_nat b = str_nat (b div 10) @ [digit_char (b mod 10)]"
        by (subst str_nat.simps) simp
      with n 1(2) str_nat_nonempty[of "b div 10"] show ?thesis by simp
    qed
  next
    case False
    then have n: "str_nat n = str_nat (n div 10) @ [digit_char (n mod 10)]"
      by (subst str_nat.simps) simp
    show ?thesis
    proof (cases "b < 10")
      case True
      then have "str_nat b = [digit_char b]" by (subst str_nat.simps) simp
      with n 1(2) str_nat_nonempty[of "n div 10"] show ?thesis by simp
    next
      case b: False
      then have "str_nat b = str_nat (b div 10) @ [digit_char (b mod 10)]"
        by (subst str_nat.simps) simp
      with n 1(2) have e1: "str_nat (n div 10) = str_nat (b div 10)"
        and e2: "digit_char (n mod 10) = digit_char (b mod 10)" by simp_all
      from 1(1)[OF False e1] have "n div 10 = b div 10" .
      moreover from e2 have "n mod 10 = b mod 10" by (intro digit_char_inj) simp_all
      ultimately show ?thesis by (metis div_mult_mod_eq)
    qed
  qed
qed

lemma underscore_notin_str: "CHR ''_'' \<notin> set (str i)"
  using set_str_nat[of "nat i"] set_str_nat[of "nat (- i)"] by (auto simp: str_def)

lemma minus_notin_str_nat: "CHR ''-'' \<notin> set (str_nat n)"
  using set_str_nat[of n] by auto

lemma str_inj: "str i = str j \<Longrightarrow> i = j"
proof -
  assume e: "str i = str j"
  have hd: "\<And>n. hd (str_nat n) \<noteq> CHR ''-''"
    using minus_notin_str_nat str_nat_nonempty by (metis hd_in_set)
  show "i = j"
  proof (cases "i < 0")
    case True
    show ?thesis
    proof (cases "j < 0")
      case j: True
      with True e have "str_nat (nat (- i)) = str_nat (nat (- j))" by (simp add: str_def)
      then have "nat (- i) = nat (- j)" by (rule str_nat_inj)
      with True j show ?thesis by simp
    next
      case False
      with True e have "CHR ''-'' # str_nat (nat (- i)) = str_nat (nat j)" by (simp add: str_def)
      then have "hd (str_nat (nat j)) = CHR ''-''" by (metis list.sel(1))
      with hd show ?thesis by simp
    qed
  next
    case False
    show ?thesis
    proof (cases "j < 0")
      case True
      with False e have "str_nat (nat i) = CHR ''-'' # str_nat (nat (- j))" by (simp add: str_def)
      then have "hd (str_nat (nat i)) = CHR ''-''" by (metis list.sel(1))
      with hd show ?thesis by simp
    next
      case j: False
      with False e have "str_nat (nat i) = str_nat (nat j)" by (simp add: str_def)
      then have "nat i = nat j" by (rule str_nat_inj)
      with False j show ?thesis by simp
    qed
  qed
qed

lemma split_at_last_sep:
  "xs @ c # ys = xs' @ c # ys' \<Longrightarrow> c \<notin> set ys \<Longrightarrow> c \<notin> set ys' \<Longrightarrow> xs = xs' \<and> ys = ys'"
proof (induction xs arbitrary: xs')
  case Nil
  then show ?case by (cases xs') auto
next
  case (Cons a xs)
  then show ?case by (cases xs') auto
qed

lemma chunk_name_inj: "chunk_name a i = chunk_name b j \<longleftrightarrow> a = b \<and> i = j"
proof
  assume "chunk_name a i = chunk_name b j"
  then have "a @ CHR ''_'' # str i = b @ CHR ''_'' # str j" by (simp add: chunk_name_def)
  then have "a = b \<and> str i = str j"
    by (rule split_at_last_sep) (rule underscore_notin_str)+
  then show "a = b \<and> i = j" by (auto dest: str_inj)
qed simp

section \<open>Splitting tasks into chunks\<close>

lemma update_fresh: "k \<notin> fst ` set al \<Longrightarrow> AList.update k v al = al @ [(k, v)]"
  by (induction al) auto

lemma fold_update_fresh:
  "distinct (map f js) \<Longrightarrow> \<forall>j\<in>set js. f j \<notin> fst ` set al \<Longrightarrow>
   fold (\<lambda>j. AList.update (f j) (g j)) js al = al @ map (\<lambda>j. (f j, g j)) js"
proof (induction js arbitrary: al)
  case Nil
  then show ?case by simp
next
  case (Cons j js)
  have 1: "AList.update (f j) (g j) al = al @ [(f j, g j)]"
    using Cons.prems(2) by (simp add: update_fresh)
  have 2: "\<forall>i\<in>set js. f i \<notin> fst ` set (al @ [(f j, g j)])"
    using Cons.prems by (auto simp: image_iff)
  have 3: "distinct (map f js)" using Cons.prems(1) by simp
  show ?case using Cons.IH[OF 3 2] 1 by simp
qed

lemma distinct_chunk_names: "distinct (map (chunk_name task) [i..j])"
  by (simp add: distinct_map inj_on_def chunk_name_inj)

lemma split_task_fresh:
  assumes m: "m \<noteq> 0"
    and fresh: "\<forall>i. chunk_name task i \<notin> fst ` set acc"
  shows "split_task m (task, info) acc = Inr (acc @ spec_chunks m task info)"
proof -
  let ?n = "duration info div m"
  let ?full = "\<lparr>duration = m, deadline = deadline info, priority = priority info\<rparr>"
  let ?acc1 = "fold (\<lambda>i. AList.update (chunk_name task i) ?full) (range_py ?n) acc"
  have acc1: "?acc1 = acc @ map (\<lambda>i. (chunk_name task i, ?full)) [0..?n - 1]"
    unfolding range_py_def
    by (rule fold_update_fresh) (use fresh distinct_chunk_names in auto)
  have last_fresh: "chunk_name task ?n \<notin> fst ` set ?acc1"
    unfolding acc1 using fresh by (auto simp: chunk_name_inj)
  show ?thesis
    using m acc1 last_fresh
    by (simp add: split_task_def spec_chunks_def Let_def update_fresh)
qed

lemma fst_spec_chunks:
  "k \<in> fst ` set (spec_chunks m task info) \<Longrightarrow> \<exists>i. k = chunk_name task i"
  by (auto simp: spec_chunks_def Let_def split: if_splits)

lemma efold_split_task:
  assumes m: "m \<noteq> 0"
  shows "distinct (map fst tasks) \<Longrightarrow>
    \<forall>k\<in>fst ` set acc. \<exists>t i. k = chunk_name t i \<and> t \<notin> fst ` set tasks \<Longrightarrow>
    efold (split_task m) tasks acc
      = Inr (acc @ concat (map (\<lambda>(task, info). spec_chunks m task info) tasks))"
proof (induction tasks arbitrary: acc)
  case Nil
  then show ?case by simp
next
  case (Cons p tasks)
  obtain task info where p: "p = (task, info)" by (cases p)
  have fresh: "\<forall>i. chunk_name task i \<notin> fst ` set acc"
  proof
    fix i
    show "chunk_name task i \<notin> fst ` set acc"
    proof
      assume "chunk_name task i \<in> fst ` set acc"
      with Cons.prems(2) obtain t j where "chunk_name task i = chunk_name t j"
        and "t \<notin> fst ` set (p # tasks)" by blast
      then show False by (simp add: chunk_name_inj p)
    qed
  qed
  have step: "split_task m p acc = Inr (acc @ spec_chunks m task info)"
    unfolding p using m fresh by (rule split_task_fresh)
  have d: "distinct (map fst tasks)" and notin: "task \<notin> fst ` set tasks"
    using Cons.prems(1) by (simp_all add: p)
  have inv: "\<forall>k\<in>fst ` set (acc @ spec_chunks m task info).
      \<exists>t i. k = chunk_name t i \<and> t \<notin> fst ` set tasks"
  proof
    fix k assume "k \<in> fst ` set (acc @ spec_chunks m task info)"
    then consider "k \<in> fst ` set acc" | "k \<in> fst ` set (spec_chunks m task info)" by auto
    then show "\<exists>t i. k = chunk_name t i \<and> t \<notin> fst ` set tasks"
    proof cases
      case 1
      with Cons.prems(2) show ?thesis by fastforce
    next
      case 2
      with fst_spec_chunks notin show ?thesis by blast
    qed
  qed
  show ?case using Cons.IH[OF d inv] step by (simp add: p)
qed

lemma split_tasks_spec:
  "m \<noteq> 0 \<Longrightarrow> distinct (map fst tasks) \<Longrightarrow>
   split_tasks m tasks = Inr (concat (map (\<lambda>(task, info). spec_chunks m task info) tasks))"
  unfolding split_tasks_def using efold_split_task[of m tasks "[]"] by simp

lemma split_task_zero: "split_task 0 p acc = Inl ZeroDivisionError"
  by (cases p) (simp add: split_task_def)

lemma split_task_nonzero: "m \<noteq> 0 \<Longrightarrow> \<exists>acc'. split_task m p acc = Inr acc'"
  by (cases p) (simp add: split_task_def Let_def)

lemma efold_split_task_nonzero: "m \<noteq> 0 \<Longrightarrow> \<exists>chunks. efold (split_task m) tasks acc = Inr chunks"
proof (induction tasks arbitrary: acc)
  case Nil
  then show ?case by simp
next
  case (Cons p tasks)
  from split_task_nonzero[OF Cons.prems] obtain acc' where "split_task m p acc = Inr acc'" by blast
  with Cons.IH[OF Cons.prems, of acc'] show ?case by simp
qed

lemma split_tasks_total: "m \<noteq> 0 \<Longrightarrow> \<exists>chunks. split_tasks m tasks = Inr chunks"
  unfolding split_tasks_def by (rule efold_split_task_nonzero)

lemma split_tasks_zero: "split_tasks 0 tasks = (if tasks = [] then Inr [] else Inl ZeroDivisionError)"
  by (cases tasks) (simp_all add: split_tasks_def split_task_zero)

lemma distinct_fold_update:
  "distinct (map fst al) \<Longrightarrow> distinct (map fst (fold (\<lambda>j. AList.update (f j) (g j)) js al))"
  by (induction js arbitrary: al) (simp_all add: distinct_update)

lemma split_task_distinct:
  "split_task m p acc = Inr acc' \<Longrightarrow> distinct (map fst acc) \<Longrightarrow> distinct (map fst acc')"
  by (cases p) (auto simp: split_task_def Let_def distinct_update distinct_fold_update split: if_splits)

lemma efold_split_task_distinct:
  "efold (split_task m) tasks acc = Inr chunks \<Longrightarrow> distinct (map fst acc) \<Longrightarrow>
   distinct (map fst chunks)"
proof (induction tasks arbitrary: acc)
  case Nil
  then show ?case by simp
next
  case (Cons p tasks)
  then show ?case by (auto split: sum.splits dest: split_task_distinct)
qed

lemma split_tasks_distinct: "split_tasks m tasks = Inr chunks \<Longrightarrow> distinct (map fst chunks)"
  unfolding split_tasks_def by (erule efold_split_task_distinct) simp

lemma sum_spec_chunks:
  assumes "0 < m" "0 \<le> duration info"
  shows "sum_list (map (\<lambda>c. duration (snd c)) (spec_chunks m task info)) = duration info"
proof -
  let ?n = "duration info div m"
  have n: "0 \<le> ?n" using assms by (simp add: pos_imp_zdiv_nonneg_iff)
  have len: "int (length [0..?n - 1]) = ?n" using n by simp
  have "sum_list (map (\<lambda>i. m) [0..?n - 1]) = ?n * m"
    using len by (simp add: sum_list_triv)
  moreover have "0 \<le> duration info mod m" using assms by simp
  moreover have "?n * m + duration info mod m = duration info" by simp
  ultimately show ?thesis
    by (auto simp: spec_chunks_def Let_def comp_def)
qed

lemma spec_chunks_bounds:
  assumes "0 < m" "c \<in> set (spec_chunks m task info)"
  shows "0 < duration (snd c) \<and> duration (snd c) \<le> m
     \<and> deadline (snd c) = deadline info \<and> priority (snd c) = priority info"
proof -
  have "duration info mod m < m" using assms(1) by simp
  then have "duration info mod m \<le> m" by simp
  with assms show ?thesis
    by (auto simp: spec_chunks_def Let_def split: if_splits)
qed

text \<open>
  C3. For a task of duration \<open>d > 0\<close> and a maximum chunk duration \<open>m > 0\<close>, the
  dictionary \<open>_split_tasks\<close> returns holds, task after task, exactly the chunks of the
  chunking rule: \<open>d div m\<close> chunks of duration \<open>m\<close> at the indices
  \<open>0..d div m - 1\<close>, then one chunk of duration \<open>d mod m\<close> at index \<open>d div m\<close> exactly
  when \<open>d mod m > 0\<close>. The durations of the task's chunks sum to \<open>d\<close>, each lies in
  \<open>(0, m]\<close>, and each chunk carries the task's deadline and priority.
\<close>

theorem split_tasks_chunks:
  assumes "distinct (map fst tasks)" and "0 < m"
    and "(task, info) \<in> set tasks" and "0 < duration info"
  shows "split_tasks m tasks
           = Inr (concat (map (\<lambda>(task, info). spec_chunks m task info) tasks))
     \<and> sum_list (map (\<lambda>c. duration (snd c)) (spec_chunks m task info)) = duration info
     \<and> (\<forall>c\<in>set (spec_chunks m task info).
           0 < duration (snd c) \<and> duration (snd c) \<le> m
           \<and> deadline (snd c) = deadline info \<and> priority (snd c) = priority info)"
  using assms split_tasks_spec[of m tasks] sum_spec_chunks[of m info task]
    spec_chunks_bounds[of m _ task info]
  by simp

theorem split_tasks_chunks_witness:
  "split_tasks 2 [(''A'', \<lparr>duration = 5, deadline = 7, priority = 3\<rparr>)]
     = Inr [(''A_0'', \<lparr>duration = 2, deadline = 7, priority = 3\<rparr>),
            (''A_1'', \<lparr>duration = 2, deadline = 7, priority = 3\<rparr>),
            (''A_2'', \<lparr>duration = 1, deadline = 7, priority = 3\<rparr>)]"
  using split_tasks_chunks[of "[(''A'', \<lparr>duration = 5, deadline = 7, priority = 3\<rparr>)]" 2
      "''A''" "\<lparr>duration = 5, deadline = 7, priority = 3\<rparr>"]
  by (simp add: spec_chunks_def chunk_name_def str_def str_nat.simps digit_char_def upto.simps)

text \<open>
  C7, as amended. The source has no \<open>ConfigurationError\<close> and checks nothing: with
  \<open>max_task_duration = 0\<close> and at least one task the integer division of line 92 raises
  \<open>ZeroDivisionError\<close>, in \<open>_split_tasks\<close> and so before the model is created; with a
  negative \<open>max_task_duration\<close>, or with no task at all, \<open>_split_tasks\<close> returns.
\<close>

theorem split_tasks_nonpositive:
  assumes "m \<le> 0"
  shows "(m = 0 \<and> tasks \<noteq> [] \<longrightarrow>
            split_tasks m tasks = Inl ZeroDivisionError
            \<and> init tasks num_days unavailable_hours m favorite_hours = Inl ZeroDivisionError)
     \<and> (m < 0 \<or> tasks = [] \<longrightarrow> (\<exists>chunks. split_tasks m tasks = Inr chunks))"
proof (cases "m = 0")
  case True
  then show ?thesis using split_tasks_zero[of tasks] by (auto simp: init_def split_tasks_def)
next
  case False
  then show ?thesis using split_tasks_total[of m tasks] by simp
qed

theorem split_tasks_nonpositive_witness:
  "split_tasks 0 [(''A'', \<lparr>duration = 3, deadline = 5, priority = 1\<rparr>)] = Inl ZeroDivisionError
   \<and> init [(''A'', \<lparr>duration = 3, deadline = 5, priority = 1\<rparr>)] 1 {} 0 {} = Inl ZeroDivisionError
   \<and> (\<exists>chunks. split_tasks (- 1) [(''A'', \<lparr>duration = 3, deadline = 5, priority = 1\<rparr>)] = Inr chunks)"
  using split_tasks_nonpositive[of 0 "[(''A'', \<lparr>duration = 3, deadline = 5, priority = 1\<rparr>)]" 1 "{}" "{}"]
    split_tasks_nonpositive[of "- 1" "[(''A'', \<lparr>duration = 3, deadline = 5, priority = 1\<rparr>)]" 1 "{}" "{}"]
  by simp

text \<open>
  C7 as stated fails: with \<open>max_task_duration = -1\<close> a task of duration 3 has
  \<open>3 // -1 = -3\<close> full chunks and remainder \<open>3 % -1 = 0\<close>, so nothing is raised and the
  task silently yields no chunk.
\<close>

theorem split_tasks_negative_counterexample:
  "split_tasks (- 1) [(''A'', \<lparr>duration = 3, deadline = 5, priority = 1\<rparr>)] = Inr []
   \<and> split_tasks (- 1) [(''A'', \<lparr>duration = 3, deadline = 5, priority = 1\<rparr>)] \<noteq> Inl ConfigurationError"
  by (simp add: split_tasks_def split_task_def range_py_def)

section \<open>Assembling the model\<close>

lemma efold_append:
  "efold f (xs @ ys) s = (case efold f xs s of Inl e \<Rightarrow> Inl e | Inr s' \<Rightarrow> efold f ys s')"
  by (induction xs arbitrary: s) (auto split: sum.splits)

subsection \<open>Registering the variables\<close>

lemma registered_add:
  "registered (dqm\<lparr>dqm_variables := dqm_variables dqm @ [(label, n)]\<rparr>) v
     \<longleftrightarrow> registered dqm v \<or> v = label"
  by (auto simp: registered_def map_of_append map_add_def split: option.splits)

lemma efold_add_variable:
  "distinct (map fst tasks) \<Longrightarrow> \<forall>k\<in>fst ` set tasks. \<not> registered dqm k \<Longrightarrow>
   efold (\<lambda>(task, info). add_variable (f info) task) tasks dqm
     = Inr (dqm\<lparr>dqm_variables :=
              dqm_variables dqm @ map (\<lambda>(task, info). (task, f info)) tasks\<rparr>)"
proof (induction tasks arbitrary: dqm)
  case Nil
  then show ?case by simp
next
  case (Cons p tasks)
  obtain task info where p: "p = (task, info)" by (cases p)
  let ?dqm = "dqm\<lparr>dqm_variables := dqm_variables dqm @ [(task, f info)]\<rparr>"
  have step: "add_variable (f info) task dqm = Inr ?dqm"
    using Cons.prems(2) by (simp add: add_variable_def p)
  have d: "distinct (map fst tasks)" using Cons.prems(1) by simp
  have fresh: "\<forall>k\<in>fst ` set tasks. \<not> registered ?dqm k"
    using Cons.prems by (auto simp: registered_add p)
  show ?case using Cons.IH[OF d fresh] step by (simp add: p)
qed

lemma add_variables_fresh:
  assumes "distinct (map fst tasks)"
  shows "add_variables max_deadline tasks DiscreteQuadraticModel
     = Inr \<lparr>dqm_variables =
              map (\<lambda>(task, info). (task, max_deadline - duration info + 1)) tasks,
            dqm_linear = Map.empty, dqm_quadratic = Map.empty\<rparr>"
proof -
  have "\<forall>k\<in>fst ` set tasks. \<not> registered DiscreteQuadraticModel k"
    by (simp add: registered_def DiscreteQuadraticModel_def)
  from efold_add_variable[OF assms this, of "\<lambda>info. max_deadline - duration info + 1"]
  show ?thesis by (simp add: add_variables_def DiscreteQuadraticModel_def Let_def)
qed

lemma map_of_variables:
  "map_of (map (\<lambda>(task, info). (task, f info)) tasks) v = map_option f (map_of tasks v)"
  by (induction tasks) auto

subsection \<open>Pairwise penalties\<close>

lemma efold_quadratic:
  assumes step: "\<And>x dqm. x \<in> set xs \<Longrightarrow> dqm_variables dqm = vs \<Longrightarrow>
      step x dqm = Inr (dqm\<lparr>dqm_quadratic :=
        (\<lambda>k. if k \<in> K x then Some c else dqm_quadratic dqm k)\<rparr>)"
  shows "dqm_variables dqm = vs \<Longrightarrow>
    efold step xs dqm = Inr (dqm\<lparr>dqm_quadratic :=
      (\<lambda>k. if k \<in> (\<Union>x\<in>set xs. K x) then Some c else dqm_quadratic dqm k)\<rparr>)"
  using step
proof (induction xs arbitrary: dqm)
  case Nil
  then show ?case by simp
next
  case (Cons x xs)
  let ?dqm = "dqm\<lparr>dqm_quadratic := (\<lambda>k. if k \<in> K x then Some c else dqm_quadratic dqm k)\<rparr>"
  have 1: "step x dqm = Inr ?dqm" using Cons.prems by simp
  have 2: "dqm_variables ?dqm = vs" using Cons.prems(1) by simp
  have 3: "efold step xs ?dqm = Inr (?dqm\<lparr>dqm_quadratic :=
      (\<lambda>k. if k \<in> (\<Union>x\<in>set xs. K x) then Some c else dqm_quadratic ?dqm k)\<rparr>)"
    by (rule Cons.IH[OF 2]) (use Cons.prems(2) in simp)
  have 4: "(\<lambda>k. if k \<in> (\<Union>x\<in>set xs. K x) then Some c else dqm_quadratic ?dqm k)
      = (\<lambda>k. if k \<in> (\<Union>x\<in>set (x # xs). K x) then Some c else dqm_quadratic dqm k)"
    by (auto simp: fun_eq_iff)
  show ?case using 1 3 4 by simp
qed

lemma set_quadratic_single:
  assumes "map_of (dqm_variables dqm) u \<noteq> None" "map_of (dqm_variables dqm) v \<noteq> None"
  shows "set_quadratic u v [((cu, cv), c)] dqm
     = Inr (dqm\<lparr>dqm_quadratic :=
         (\<lambda>k. if k \<in> {quad_key u cu v cv} then Some c else dqm_quadratic dqm k)\<rparr>)"
proof -
  have "(dqm_quadratic dqm)(quad_key u cu v cv \<mapsto> c)
      = (\<lambda>k. if k \<in> {quad_key u cu v cv} then Some c else dqm_quadratic dqm k)"
    by (auto simp: fun_eq_iff)
  with assms show ?thesis by (simp add: set_quadratic_def registered_def)
qed

lemma overlap_penalties_keys:
  assumes vs: "dqm_variables dqm = vs"
    and r1: "map_of vs (fst p1) \<noteq> None" and r2: "map_of vs (fst p2) \<noteq> None"
  shows "overlap_penalties h p1 p2 dqm
     = Inr (dqm\<lparr>dqm_quadratic :=
         (\<lambda>k. if k \<in> overlap_keys h p1 p2 then Some 10 else dqm_quadratic dqm k)\<rparr>)"
proof -
  obtain task1 info1 task2 info2 where p: "p1 = (task1, info1)" "p2 = (task2, info2)"
    by (cases p1, cases p2)
  let ?C = "\<lambda>t1 t2. (t1 \<le> t2 \<and> t2 < t1 + duration info1) \<or> (t2 \<le> t1 \<and> t1 < t2 + duration info2)"
  let ?K2 = "\<lambda>t1 t2. if ?C t1 t2 then {quad_key task1 t1 task2 t2} else {}"
  let ?inner = "\<lambda>t1. efold (\<lambda>t2 dqm. if ?C t1 t2
         then set_quadratic task1 task2 [((t1, t2), 10)] dqm else Inr dqm)
       (start_times h info2)"
  have inner: "?inner t1 d = Inr (d\<lparr>dqm_quadratic :=
      (\<lambda>k. if k \<in> (\<Union>t2\<in>set (start_times h info2). ?K2 t1 t2) then Some 10
            else dqm_quadratic d k)\<rparr>)" if d: "dqm_variables d = vs" for t1 d
  proof (rule efold_quadratic[where vs = vs, OF _ d])
    fix t2 and d' :: discrete_quadratic_model
    assume "dqm_variables d' = vs"
    then show "(if ?C t1 t2 then set_quadratic task1 task2 [((t1, t2), 10)] d' else Inr d')
      = Inr (d'\<lparr>dqm_quadratic := (\<lambda>k. if k \<in> ?K2 t1 t2 then Some 10 else dqm_quadratic d' k)\<rparr>)"
      using r1 r2 set_quadratic_single[of d' task1 task2 t1 t2 10] by (simp add: p)
  qed
  have outer: "efold ?inner (start_times h info1) dqm = Inr (dqm\<lparr>dqm_quadratic :=
      (\<lambda>k. if k \<in> (\<Union>t1\<in>set (start_times h info1). \<Union>t2\<in>set (start_times h info2). ?K2 t1 t2)
            then Some 10 else dqm_quadratic dqm k)\<rparr>)"
    by (rule efold_quadratic[where vs = vs, OF _ vs]) (rule inner)
  have keys: "(\<Union>t1\<in>set (start_times h info1). \<Union>t2\<in>set (start_times h info2). ?K2 t1 t2)
      = overlap_keys h p1 p2"
    by (auto simp: overlap_keys_def p split: if_splits)
  show ?thesis using outer unfolding keys by (simp add: overlap_penalties_def p Let_def)
qed

lemma add_constraints_and_penalties_keys:
  assumes vs: "dqm_variables dqm = vs"
    and reg: "\<forall>p\<in>set tasks. map_of vs (fst p) \<noteq> None"
  shows "add_constraints_and_penalties h tasks dqm
     = Inr (dqm\<lparr>dqm_quadratic :=
         (\<lambda>k. if k \<in> conflict_keys h tasks then Some 10 else dqm_quadratic dqm k)\<rparr>)"
proof -
  let ?K = "\<lambda>p1 p2. if fst p1 < fst p2 then overlap_keys h p1 p2 else {}"
  let ?inner = "\<lambda>p1. efold (\<lambda>p2 s. if fst p1 < fst p2 then overlap_penalties h p1 p2 s else Inr s) tasks"
  have inner: "?inner p1 d = Inr (d\<lparr>dqm_quadratic :=
      (\<lambda>k. if k \<in> (\<Union>p2\<in>set tasks. ?K p1 p2) then Some 10 else dqm_quadratic d k)\<rparr>)"
    if p1: "p1 \<in> set tasks" and d: "dqm_variables d = vs" for p1 d
  proof (rule efold_quadratic[where vs = vs, OF _ d])
    fix p2 and d' :: discrete_quadratic_model
    assume "p2 \<in> set tasks" "dqm_variables d' = vs"
    then show "(if fst p1 < fst p2 then overlap_penalties h p1 p2 d' else Inr d')
      = Inr (d'\<lparr>dqm_quadratic := (\<lambda>k. if k \<in> ?K p1 p2 then Some 10 else dqm_quadratic d' k)\<rparr>)"
      using reg p1 overlap_penalties_keys[of d' vs p1 p2 h] by simp
  qed
  have "efold ?inner tasks dqm = Inr (dqm\<lparr>dqm_quadratic :=
      (\<lambda>k. if k \<in> (\<Union>p1\<in>set tasks. \<Union>p2\<in>set tasks. ?K p1 p2) then Some 10
            else dqm_quadratic dqm k)\<rparr>)"
    by (rule efold_quadratic[where vs = vs, OF _ vs]) (rule inner)
  moreover have "for_task_pairs (overlap_penalties h) tasks = efold ?inner tasks"
    by (simp add: for_task_pairs_def case_prod_unfold cong: if_cong)
  ultimately show ?thesis
    by (simp add: add_constraints_and_penalties_def conflict_keys_def)
qed

subsection \<open>Bias vectors\<close>

lemma efold_set_linear:
  assumes vs: "dqm_variables dqm = vs"
  shows "distinct (map fst tasks) \<Longrightarrow> \<forall>p\<in>set tasks. map_of vs (fst p) \<noteq> None \<Longrightarrow>
    efold (\<lambda>(task, info). set_linear task (f info)) tasks dqm
      = Inr (dqm\<lparr>dqm_linear :=
          (\<lambda>v. case map_of tasks v of Some info \<Rightarrow> Some (f info) | None \<Rightarrow> dqm_linear dqm v)\<rparr>)"
  using vs
proof (induction tasks arbitrary: dqm)
  case Nil
  then show ?case by simp
next
  case (Cons p tasks)
  obtain task info where p: "p = (task, info)" by (cases p)
  let ?dqm = "dqm\<lparr>dqm_linear := (dqm_linear dqm)(task \<mapsto> f info)\<rparr>"
  have step: "set_linear task (f info) dqm = Inr ?dqm"
    using Cons.prems by (simp add: set_linear_def registered_def p)
  have d: "distinct (map fst tasks)" and notin: "map_of tasks task = None"
    using Cons.prems(1) by (simp_all add: p map_of_eq_None_iff)
  have reg: "\<forall>p\<in>set tasks. map_of vs (fst p) \<noteq> None" using Cons.prems(2) by simp
  have vs': "dqm_variables ?dqm = vs" using Cons.prems(3) by simp
  have fn: "(\<lambda>v. case map_of tasks v of Some info \<Rightarrow> Some (f info) | None \<Rightarrow> dqm_linear ?dqm v)
      = (\<lambda>v. case map_of (p # tasks) v of Some info \<Rightarrow> Some (f info) | None \<Rightarrow> dqm_linear dqm v)"
    using notin by (auto simp: fun_eq_iff p split: option.splits)
  show ?case using Cons.IH[OF d reg vs'] step fn by (simp add: p)
qed

lemma efold_get_set_linear:
  assumes vs: "dqm_variables dqm = vs"
  shows "distinct (map fst tasks) \<Longrightarrow> \<forall>p\<in>set tasks. map_of vs (fst p) \<noteq> None \<Longrightarrow>
    \<forall>p\<in>set tasks. dqm_linear dqm (fst p) \<noteq> None \<Longrightarrow>
    efold (\<lambda>(task, info) dqm.
        case get_linear task dqm of
          Inl e \<Rightarrow> Inl e
        | Inr current \<Rightarrow> set_linear task (g current info) dqm) tasks dqm
      = Inr (dqm\<lparr>dqm_linear :=
          (\<lambda>v. case map_of tasks v of
                  Some info \<Rightarrow> Some (g (the (dqm_linear dqm v)) info)
                | None \<Rightarrow> dqm_linear dqm v)\<rparr>)"
  using vs
proof (induction tasks arbitrary: dqm)
  case Nil
  then show ?case by simp
next
  case (Cons p tasks)
  obtain task info where p: "p = (task, info)" by (cases p)
  from Cons.prems(3) obtain cur where cur: "dqm_linear dqm task = Some cur" by (auto simp: p)
  let ?dqm = "dqm\<lparr>dqm_linear := (dqm_linear dqm)(task \<mapsto> g cur info)\<rparr>"
  have step: "(case get_linear task dqm of
          Inl e \<Rightarrow> Inl e
        | Inr current \<Rightarrow> set_linear task (g current info) dqm) = Inr ?dqm"
    using Cons.prems cur by (simp add: get_linear_def set_linear_def registered_def p)
  have d: "distinct (map fst tasks)" and notin: "map_of tasks task = None"
    using Cons.prems(1) by (simp_all add: p map_of_eq_None_iff)
  have reg: "\<forall>p\<in>set tasks. map_of vs (fst p) \<noteq> None" using Cons.prems(2) by simp
  have lin: "\<forall>p\<in>set tasks. dqm_linear ?dqm (fst p) \<noteq> None" using Cons.prems(3) by simp
  have vs': "dqm_variables ?dqm = vs" using Cons.prems(4) by simp
  have fn: "(\<lambda>v. case map_of tasks v of
                  Some info \<Rightarrow> Some (g (the (dqm_linear ?dqm v)) info)
                | None \<Rightarrow> dqm_linear ?dqm v)
      = (\<lambda>v. case map_of (p # tasks) v of
                  Some info \<Rightarrow> Some (g (the (dqm_linear dqm v)) info)
                | None \<Rightarrow> dqm_linear dqm v)"
    using notin cur by (auto simp: fun_eq_iff p split: option.splits)
  show ?case using Cons.IH[OF d reg lin vs'] step fn by (simp add: p)
qed

lemma zip_map_same:
  "map (\<lambda>(a, b). a + b) (zip (map f xs) (map g xs)) = map (\<lambda>x. f x + g x) xs"
  by (induction xs) auto

lemma add_deadline_and_unavailable_penalties_linear:
  assumes "dqm_variables dqm = vs" "distinct (map fst tasks)"
    "\<forall>p\<in>set tasks. map_of vs (fst p) \<noteq> None"
  shows "add_deadline_and_unavailable_penalties h U tasks dqm
     = Inr (dqm\<lparr>dqm_linear :=
         (\<lambda>v. case map_of tasks v of
                 Some info \<Rightarrow> Some (map (\<lambda>t. (if t + duration info > deadline info then 10 else 0)
                                            + (if t \<in> U then 10 else 0)) (start_times h info))
               | None \<Rightarrow> dqm_linear dqm v)\<rparr>)"
  using efold_set_linear[OF assms(1,2,3),
      of "\<lambda>info. map (\<lambda>t. (if t + duration info > deadline info then 10 else 0)
                            + (if t \<in> U then 10 else 0)) (start_times h info)"]
  by (simp add: add_deadline_and_unavailable_penalties_def Let_def zip_map_same)

lemma add_priority_rewards_linear:
  assumes "dqm_variables dqm = vs" "distinct (map fst tasks)"
    "\<forall>p\<in>set tasks. map_of vs (fst p) \<noteq> None"
    "\<forall>p\<in>set tasks. dqm_linear dqm (fst p) \<noteq> None"
  shows "add_priority_rewards h F tasks dqm
     = Inr (dqm\<lparr>dqm_linear :=
         (\<lambda>v. case map_of tasks v of
                 Some info \<Rightarrow> Some (map (\<lambda>(penalty, reward). penalty + reward)
                    (zip (the (dqm_linear dqm v))
                       (map (\<lambda>t. of_int (priority info) / of_int (t + 1)
                                  + (if t \<in> F then 1 else 0)) (start_times h info))))
               | None \<Rightarrow> dqm_linear dqm v)\<rparr>)"
  using efold_get_set_linear[OF assms(1,2,3,4),
      of "\<lambda>current info. map (\<lambda>(penalty, reward). penalty + reward)
                    (zip current
                       (map (\<lambda>t. of_int (priority info) / of_int (t + 1)
                                  + (if t \<in> F then 1 else 0)) (start_times h info)))"]
  unfolding add_priority_rewards_def Let_def
  by (simp add: zip_map_same cong: sum.case_cong)

subsection \<open>The finished model\<close>

lemma map_of_chunk: "distinct (map fst tasks) \<Longrightarrow> (v, info) \<in> set tasks \<Longrightarrow> map_of tasks v = Some info"
  by simp

lemma init_model:
  assumes split: "split_tasks m tasks_read = Inr tasks"
  shows "init tasks_read nd U m F
     = Inr \<lparr>self_num_days = nd, self_max_task_duration = m, self_tasks = tasks,
            self_max_deadline = nd * 24, self_unavailable_hours = U, self_favorite_hours = F,
            self_dqm =
              \<lparr>dqm_variables = map (\<lambda>(task, info). (task, nd * 24 - duration info + 1)) tasks,
               dqm_linear =
                 (\<lambda>v. case map_of tasks v of
                    Some info \<Rightarrow>
                      Some (map (\<lambda>t. (if t + duration info > deadline info then 10 else 0)
                                      + (if t \<in> U then 10 else 0)
                                      + (of_int (priority info) / of_int (t + 1)
                                         + (if t \<in> F then 1 else 0)))
                              (start_times (nd * 24) info))
                  | None \<Rightarrow> None),
               dqm_quadratic =
                 (\<lambda>k. if k \<in> conflict_keys (nd * 24) tasks then Some 10 else None)\<rparr>\<rparr>"
proof -
  let ?h = "nd * 24"
  let ?vs = "map (\<lambda>(task, info). (task, ?h - duration info + 1)) tasks"
  let ?dqm1 = "\<lparr>dqm_variables = ?vs, dqm_linear = Map.empty, dqm_quadratic = Map.empty\<rparr>"
  let ?q = "\<lambda>k. if k \<in> conflict_keys ?h tasks then Some (10::rat) else None"
  let ?dqm2 = "\<lparr>dqm_variables = ?vs, dqm_linear = Map.empty, dqm_quadratic = ?q\<rparr>"
  let ?pen = "\<lambda>info. map (\<lambda>t. (if t + duration info > deadline info then 10 else 0)
                            + (if t \<in> U then (10::rat) else 0)) (start_times ?h info)"
  let ?l3 = "\<lambda>v. case map_of tasks v of Some info \<Rightarrow> Some (?pen info) | None \<Rightarrow> None"
  let ?dqm3 = "\<lparr>dqm_variables = ?vs, dqm_linear = ?l3, dqm_quadratic = ?q\<rparr>"
  let ?rew = "\<lambda>info. map (\<lambda>t. of_int (priority info) / of_int (t + 1)
                                  + (if t \<in> F then (1::rat) else 0)) (start_times ?h info)"
  let ?l4 = "\<lambda>v. case map_of tasks v of
                 Some info \<Rightarrow> Some (map (\<lambda>(penalty, reward). penalty + reward)
                    (zip (the (?l3 v)) (?rew info)))
               | None \<Rightarrow> ?l3 v"
  let ?dqm4 = "\<lparr>dqm_variables = ?vs, dqm_linear = ?l4, dqm_quadratic = ?q\<rparr>"
  have d: "distinct (map fst tasks)" using split by (rule split_tasks_distinct)
  have reg: "\<forall>p\<in>set tasks. map_of ?vs (fst p) \<noteq> None"
    using d by (auto simp: map_of_variables)
  have 1: "add_variables ?h tasks DiscreteQuadraticModel = Inr ?dqm1"
    using d by (rule add_variables_fresh)
  have 2: "add_constraints_and_penalties ?h tasks ?dqm1 = Inr ?dqm2"
    using add_constraints_and_penalties_keys[of ?dqm1 ?vs tasks ?h] reg
    by (simp cong: if_cong)
  have 3: "add_deadline_and_unavailable_penalties ?h U tasks ?dqm2 = Inr ?dqm3"
    using add_deadline_and_unavailable_penalties_linear[of ?dqm2 ?vs tasks ?h U] d reg
    by (simp cong: option.case_cong)
  have lin: "\<forall>p\<in>set tasks. dqm_linear ?dqm3 (fst p) \<noteq> None"
    using d by auto
  have 4: "add_priority_rewards ?h F tasks ?dqm3 = Inr ?dqm4"
    using add_priority_rewards_linear[of ?dqm3 ?vs tasks ?h F] d reg lin
    by (simp cong: option.case_cong)
  have l4: "?l4 = (\<lambda>v. case map_of tasks v of
                    Some info \<Rightarrow>
                      Some (map (\<lambda>t. (if t + duration info > deadline info then 10 else 0)
                                      + (if t \<in> U then 10 else 0)
                                      + (of_int (priority info) / of_int (t + 1)
                                         + (if t \<in> F then 1 else 0)))
                              (start_times ?h info))
                  | None \<Rightarrow> None)"
    by (auto simp: fun_eq_iff zip_map_same split: option.splits)
  show ?thesis
    unfolding init_def split using 1 2 3 4 unfolding l4 by (simp add: Let_def)
qed

lemma nth_start_times:
  assumes "t \<in> set (start_times h info)"
  shows "0 \<le> t" and "nat t < length (start_times h info)" and "start_times h info ! nat t = t"
  using assms by (auto simp: start_times_def range_py_def nth_upto)

lemma init_cases_of:
  assumes "split_tasks m tasks_read = Inr tasks" "(v, info) \<in> set tasks"
  shows "cases_of (init tasks_read nd U m F) v = Some (nd * 24 - duration info + 1)"
proof -
  have "distinct (map fst tasks)" using assms(1) by (rule split_tasks_distinct)
  then have "map_of tasks v = Some info" using assms(2) by simp
  then show ?thesis
    by (simp add: init_model[OF assms(1)] cases_of_def num_cases_def map_of_variables)
qed

lemma init_bias_of:
  assumes "split_tasks m tasks_read = Inr tasks" "(v, info) \<in> set tasks"
    and t: "t \<in> set (start_times (nd * 24) info)"
  shows "bias_of (init tasks_read nd U m F) v t
     = Some ((if t + duration info > deadline info then 10 else 0)
             + (if t \<in> U then 10 else 0)
             + (of_int (priority info) / of_int (t + 1) + (if t \<in> F then 1 else 0)))"
proof -
  have "distinct (map fst tasks)" using assms(1) by (rule split_tasks_distinct)
  then have "map_of tasks v = Some info" using assms(2) by simp
  then show ?thesis
    using nth_start_times[OF t]
    by (simp add: init_model[OF assms(1)] bias_of_def get_linear_case_def)
qed

lemma init_bias_vector:
  assumes "split_tasks m tasks_read = Inr tasks" "(v, info) \<in> set tasks"
  shows "\<exists>self biases. init tasks_read nd U m F = Inr self
     \<and> get_linear v (self_dqm self) = Inr biases
     \<and> length biases = length (start_times (nd * 24) info)"
proof -
  have "distinct (map fst tasks)" using assms(1) by (rule split_tasks_distinct)
  then have "map_of tasks v = Some info" using assms(2) by simp
  then show ?thesis
    by (simp add: init_model[OF assms(1)] get_linear_def)
qed

lemma init_penalty_of:
  assumes "split_tasks m tasks_read = Inr tasks"
  shows "penalty_of (init tasks_read nd U m F) u cu v cv
     = (if quad_key u cu v cv \<in> conflict_keys (nd * 24) tasks then Some 10 else None)"
  by (simp add: init_model[OF assms(1)] penalty_of_def get_quadratic_case_def)

subsection \<open>Biases and domains of the finished model\<close>

lemma split_one_unit_task:
  "split_tasks 1 [(''A'', \<lparr>duration = 1, deadline = dl, priority = p\<rparr>)]
     = Inr [(''A_0'', \<lparr>duration = 1, deadline = dl, priority = p\<rparr>)]"
  by (simp add: split_tasks_def split_task_def range_py_def chunk_name_def str_def
      str_nat.simps digit_char_def)



text \<open>
  C1 asks for the rewards to be subtracted. For the single chunk \<open>A_0\<close> (duration 1,
  deadline 5, priority 1) with favorite hour 0, the penalties at \<open>t = 0\<close> are 0, the
  priority reward is \<open>1 / 1\<close> and the favorite-hour reward is 1: the claim gives
  \<open>0 + 0 - 1 - 1 = -2\<close>, the model built by lines 83 and 85 holds \<open>+2\<close>.
\<close>

theorem rewards_are_added:
  "bias_of (init [(''A'', \<lparr>duration = 1, deadline = 5, priority = 1\<rparr>)] 1 {} 1 {0}) ''A_0'' 0
     = Some 2"
  using init_bias_of[of 1 "[(''A'', \<lparr>duration = 1, deadline = 5, priority = 1\<rparr>)]"
      "[(''A_0'', \<lparr>duration = 1, deadline = 5, priority = 1\<rparr>)]" "''A_0''"
      "\<lparr>duration = 1, deadline = 5, priority = 1\<rparr>" 0 1 "{}" "{0}"]
  by (simp add: split_one_unit_task start_times_def range_py_def)

text \<open>
  C9 asks for a strictly lower bias at a favorite hour. For the chunk \<open>A_0\<close> (duration 1,
  deadline 24, priority 0) the start times 0 and 1 agree in all other terms (no deadline
  penalty, no unavailable hour, priority term 0); hour 0 is a favorite hour and hour 1 is
  not, and the bias of hour 0 is the higher one.
\<close>

theorem favorite_hour_costs_more:
  "bias_of (init [(''A'', \<lparr>duration = 1, deadline = 24, priority = 0\<rparr>)] 1 {} 1 {0}) ''A_0'' 0
     = Some 1
   \<and> bias_of (init [(''A'', \<lparr>duration = 1, deadline = 24, priority = 0\<rparr>)] 1 {} 1 {0}) ''A_0'' 1
     = Some 0"
  using init_bias_of[of 1 "[(''A'', \<lparr>duration = 1, deadline = 24, priority = 0\<rparr>)]"
      "[(''A_0'', \<lparr>duration = 1, deadline = 24, priority = 0\<rparr>)]" "''A_0''"
      "\<lparr>duration = 1, deadline = 24, priority = 0\<rparr>" 0 1 "{}" "{0}"]
    init_bias_of[of 1 "[(''A'', \<lparr>duration = 1, deadline = 24, priority = 0\<rparr>)]"
      "[(''A_0'', \<lparr>duration = 1, deadline = 24, priority = 0\<rparr>)]" "''A_0''"
      "\<lparr>duration = 1, deadline = 24, priority = 0\<rparr>" 1 1 "{}" "{0}"]
  by (simp add: split_one_unit_task start_times_def range_py_def)

text \<open>
  C5. For every chunk, the variable registered for it has \<open>horizon - duration + 1\<close> cases,
  where \<open>horizon = num_days * 24\<close>, and the start times the passes iterate are
  \<open>0 .. horizon - duration\<close> in ascending order; for a chunk that fits the horizon they are
  \<open>horizon - duration + 1\<close> in number.
\<close>

theorem domain_registered:
  assumes "split_tasks m tasks_read = Inr tasks" and "(task, info) \<in> set tasks"
  shows "cases_of (init tasks_read num_days unavailable_hours m favorite_hours) task
           = Some (num_days * 24 - duration info + 1)
     \<and> start_times (num_days * 24) info = [0..num_days * 24 - duration info]
     \<and> (duration info \<le> num_days * 24 \<longrightarrow>
          int (length (start_times (num_days * 24) info)) = num_days * 24 - duration info + 1)"
  using init_cases_of[OF assms(1,2)] by (simp add: start_times_def range_py_def)

theorem domain_registered_witness:
  "cases_of (init [(''A'', \<lparr>duration = 1, deadline = 5, priority = 1\<rparr>)] 1 {} 1 {}) ''A_0''
     = Some 24
   \<and> start_times (1 * 24) \<lparr>duration = 1, deadline = 5, priority = 1\<rparr> = [0..23]
   \<and> length (start_times (1 * 24) \<lparr>duration = 1, deadline = 5, priority = 1\<rparr>) = 24"
  using domain_registered[of 1 "[(''A'', \<lparr>duration = 1, deadline = 5, priority = 1\<rparr>)]"
      "[(''A_0'', \<lparr>duration = 1, deadline = 5, priority = 1\<rparr>)]" "''A_0''"
      "\<lparr>duration = 1, deadline = 5, priority = 1\<rparr>" 1 "{}" "{}"]
  by (simp add: split_one_unit_task)

lemma split_one_long_task:
  "split_tasks 25 [(''A'', \<lparr>duration = 25, deadline = dl, priority = p\<rparr>)]
     = Inr [(''A_0'', \<lparr>duration = 25, deadline = dl, priority = p\<rparr>)]"
  by (simp add: split_tasks_def split_task_def range_py_def chunk_name_def str_def
      str_nat.simps digit_char_def)

subsection \<open>Overlap of two chunks\<close>

lemma quad_key_less: "u < v \<Longrightarrow> quad_key u cu v cv = ((u, v), (cu, cv))"
  by (simp add: quad_key_def less_imp_le)

lemma quad_key_greater: "v < u \<Longrightarrow> quad_key u cu v cv = ((v, u), (cv, cu))"
  by (auto simp: quad_key_def)


lemma unique_entry:
  "distinct (map fst tasks) \<Longrightarrow> p \<in> set tasks \<Longrightarrow> (v, info) \<in> set tasks \<Longrightarrow> fst p = v
   \<Longrightarrow> p = (v, info)"
  by (metis eq_key_imp_eq_value prod.collapse)

lemma conflict_keys_iff:
  assumes d: "distinct (map fst tasks)"
    and a: "(a, ia) \<in> set tasks" and b: "(b, ib) \<in> set tasks" and ab: "a < b"
  shows "((a, b), (ta, tb)) \<in> conflict_keys h tasks \<longleftrightarrow>
     ta \<in> set (start_times h ia) \<and> tb \<in> set (start_times h ib)
     \<and> ((ta \<le> tb \<and> tb < ta + duration ia) \<or> (tb \<le> ta \<and> ta < tb + duration ib))"
    (is "?L \<longleftrightarrow> ?R")
proof
  assume ?L
  then obtain p1 p2 t1 t2 where p: "p1 \<in> set tasks" "p2 \<in> set tasks" "fst p1 < fst p2"
    and k: "((a, b), (ta, tb)) = quad_key (fst p1) t1 (fst p2) t2"
    and t: "t1 \<in> set (start_times h (snd p1))" "t2 \<in> set (start_times h (snd p2))"
      "(t1 \<le> t2 \<and> t2 < t1 + duration (snd p1)) \<or> (t2 \<le> t1 \<and> t1 < t2 + duration (snd p2))"
    by (auto simp: conflict_keys_def overlap_keys_def split: if_splits)
  from k p(3) have e: "fst p1 = a" "fst p2 = b" "t1 = ta" "t2 = tb"
    by (simp_all add: quad_key_less)
  have "p1 = (a, ia)" using d p(1) a e(1) by (rule unique_entry)
  moreover have "p2 = (b, ib)" using d p(2) b e(2) by (rule unique_entry)
  ultimately show ?R using t e by simp
next
  assume r: ?R
  have "((a, b), (ta, tb)) \<in> overlap_keys h (a, ia) (b, ib)"
    unfolding overlap_keys_def using r ab by (auto simp: quad_key_less)
  then show ?L unfolding conflict_keys_def using a b ab by force
qed

lemma overlap_symmetric:
  fixes t1 t2 d1 d2 :: int
  assumes "0 < d1" "0 < d2"
  shows "((t1 \<le> t2 \<and> t2 < t1 + d1) \<or> (t2 \<le> t1 \<and> t1 < t2 + d2))
     \<longleftrightarrow> t1 < t2 + d2 \<and> t2 < t1 + d1"
  using assms by arith

text \<open>
  C2. For two distinct chunks with positive durations and start times \<open>t1\<close>, \<open>t2\<close> of
  their domains, the finished model holds a pairwise entry for \<open>(t1, t2)\<close>, of value 10,
  if and only if \<open>t1 < t2 + dur2\<close> and \<open>t2 < t1 + dur1\<close>; the pair may be named in either
  order. Back to back (\<open>t1 + dur1 = t2\<close>) there is no entry.
\<close>

theorem overlap_penalty_iff:
  assumes "split_tasks m tasks_read = Inr tasks"
    and "(c1, info1) \<in> set tasks" and "(c2, info2) \<in> set tasks" and "c1 \<noteq> c2"
    and "0 < duration info1" and "0 < duration info2"
    and "t1 \<in> set (start_times (num_days * 24) info1)"
    and "t2 \<in> set (start_times (num_days * 24) info2)"
  shows "penalty_of (init tasks_read num_days unavailable_hours m favorite_hours) c1 t1 c2 t2
       = (if t1 < t2 + duration info2 \<and> t2 < t1 + duration info1 then Some 10 else None)
     \<and> (t1 + duration info1 = t2 \<longrightarrow>
          penalty_of (init tasks_read num_days unavailable_hours m favorite_hours) c1 t1 c2 t2
            = None)"
proof -
  have d: "distinct (map fst tasks)" using assms(1) by (rule split_tasks_distinct)
  let ?h = "num_days * 24"
  have "quad_key c1 t1 c2 t2 \<in> conflict_keys ?h tasks
      \<longleftrightarrow> t1 < t2 + duration info2 \<and> t2 < t1 + duration info1"
  proof (cases "c1 < c2")
    case True
    then show ?thesis
      using conflict_keys_iff[OF d assms(2,3) True, of t1 t2 ?h] assms(5-8)
        overlap_symmetric[of "duration info1" "duration info2" t1 t2]
      by (simp add: quad_key_less)
  next
    case False
    with assms(4) have lt: "c2 < c1" by simp
    then show ?thesis
      using conflict_keys_iff[OF d assms(3,2) lt, of t2 t1 ?h] assms(5-8)
        overlap_symmetric[of "duration info2" "duration info1" t2 t1]
      by (auto simp: quad_key_greater)
  qed
  then show ?thesis by (simp add: init_penalty_of[OF assms(1)])
qed

lemma split_two_unit_chunks:
  "split_tasks 1 [(''A'', \<lparr>duration = 2, deadline = dl, priority = p\<rparr>)]
     = Inr [(''A_0'', \<lparr>duration = 1, deadline = dl, priority = p\<rparr>),
            (''A_1'', \<lparr>duration = 1, deadline = dl, priority = p\<rparr>)]"
  by (simp add: split_tasks_def split_task_def range_py_def chunk_name_def str_def
      str_nat.simps digit_char_def upto.simps)

theorem overlap_penalty_iff_witness:
  "penalty_of (init [(''A'', \<lparr>duration = 2, deadline = 5, priority = 1\<rparr>)] 1 {} 1 {})
      ''A_1'' 3 ''A_0'' 3 = Some 10
   \<and> penalty_of (init [(''A'', \<lparr>duration = 2, deadline = 5, priority = 1\<rparr>)] 1 {} 1 {})
      ''A_0'' 3 ''A_1'' 4 = None"
  using overlap_penalty_iff[of 1 "[(''A'', \<lparr>duration = 2, deadline = 5, priority = 1\<rparr>)]"
      "[(''A_0'', \<lparr>duration = 1, deadline = 5, priority = 1\<rparr>),
        (''A_1'', \<lparr>duration = 1, deadline = 5, priority = 1\<rparr>)]"
      "''A_1''" "\<lparr>duration = 1, deadline = 5, priority = 1\<rparr>"
      "''A_0''" "\<lparr>duration = 1, deadline = 5, priority = 1\<rparr>" 3 1 3 "{}" "{}"]
    overlap_penalty_iff[of 1 "[(''A'', \<lparr>duration = 2, deadline = 5, priority = 1\<rparr>)]"
      "[(''A_0'', \<lparr>duration = 1, deadline = 5, priority = 1\<rparr>),
        (''A_1'', \<lparr>duration = 1, deadline = 5, priority = 1\<rparr>)]"
      "''A_0''" "\<lparr>duration = 1, deadline = 5, priority = 1\<rparr>"
      "''A_1''" "\<lparr>duration = 1, deadline = 5, priority = 1\<rparr>" 3 1 4 "{}" "{}"]
  by (simp add: split_two_unit_chunks start_times_def range_py_def)

subsection \<open>Each pair of chunks once\<close>









subsection \<open>A chunk longer than the horizon\<close>

lemma efold_dimod_add_variable_infeasible:
  "(task, info) \<in> set tasks \<Longrightarrow> h - duration info + 1 \<le> 0 \<Longrightarrow> distinct (map fst tasks) \<Longrightarrow>
   \<forall>k\<in>fst ` set tasks. \<not> registered dqm k \<Longrightarrow>
   efold (\<lambda>(task, info). dimod_add_variable (h - duration info + 1) task) tasks dqm
     = Inl ValueError"
proof (induction tasks arbitrary: dqm)
  case Nil
  then show ?case by simp
next
  case (Cons p tasks)
  obtain c i where p: "p = (c, i)" by (cases p)
  show ?case
  proof (cases "h - duration i + 1 \<le> 0")
    case True
    then show ?thesis by (simp add: p dimod_add_variable_def)
  next
    case False
    let ?dqm = "dqm\<lparr>dqm_variables := dqm_variables dqm @ [(c, h - duration i + 1)]\<rparr>"
    have step: "dimod_add_variable (h - duration i + 1) c dqm = Inr ?dqm"
      using False Cons.prems(4) by (simp add: dimod_add_variable_def add_variable_def p)
    have mem: "(task, info) \<in> set tasks" using Cons.prems(1,2) False by (auto simp: p)
    have d: "distinct (map fst tasks)" using Cons.prems(3) by simp
    have fresh: "\<forall>k\<in>fst ` set tasks. \<not> registered ?dqm k"
      using Cons.prems(3,4) by (auto simp: registered_add p)
    show ?thesis using Cons.IH[OF mem Cons.prems(2) d fresh] step by (simp add: p)
  qed
qed

lemma add_variables_dimod_infeasible:
  assumes "distinct (map fst tasks)" "(task, info) \<in> set tasks" "duration info > h"
  shows "add_variables_dimod h tasks DiscreteQuadraticModel = Inl ValueError"
proof -
  have "\<forall>k\<in>fst ` set tasks. \<not> registered DiscreteQuadraticModel k"
    by (simp add: registered_def DiscreteQuadraticModel_def)
  moreover have "h - duration info + 1 \<le> 0" using assms(3) by simp
  ultimately show ?thesis
    using efold_dimod_add_variable_infeasible[OF assms(2) _ assms(1), of h DiscreteQuadraticModel]
    by (simp add: add_variables_dimod_def Let_def)
qed

text \<open>
  C6, as amended. For a chunk whose duration exceeds the horizon, construction fails in
  \<open>_add_variables\<close>, at the \<open>add_variable\<close> call for a chunk with an empty domain (line 56)
  and so before any penalty computation; nothing is clamped. The error is the
  \<open>ValueError\<close> with which dimod refuses a number of cases below 1, not an
  \<open>InfeasibleTaskError\<close>: the source defines no such error and checks nothing itself.
\<close>

theorem infeasible_chunk_value_error:
  assumes "split_tasks m tasks_read = Inr tasks" and "(task, info) \<in> set tasks"
    and "duration info > num_days * 24"
  shows "dimod_add_variable (num_days * 24 - duration info + 1) task dqm = Inl ValueError
     \<and> add_variables_dimod (num_days * 24) tasks DiscreteQuadraticModel = Inl ValueError
     \<and> init_dimod tasks_read num_days unavailable_hours m favorite_hours = Inl ValueError"
proof -
  have d: "distinct (map fst tasks)" using assms(1) by (rule split_tasks_distinct)
  have "add_variables_dimod (num_days * 24) tasks DiscreteQuadraticModel = Inl ValueError"
    using d assms(2,3) by (rule add_variables_dimod_infeasible)
  then show ?thesis using assms(1,3) by (simp add: init_dimod_def dimod_add_variable_def)
qed

theorem infeasible_chunk_value_error_witness:
  "dimod_add_variable 0 ''A_0'' DiscreteQuadraticModel = Inl ValueError
   \<and> add_variables_dimod 24 [(''A_0'', \<lparr>duration = 25, deadline = 5, priority = 1\<rparr>)]
       DiscreteQuadraticModel = Inl ValueError
   \<and> init_dimod [(''A'', \<lparr>duration = 25, deadline = 5, priority = 1\<rparr>)] 1 {} 25 {}
       = Inl ValueError"
  using infeasible_chunk_value_error[of 25 "[(''A'', \<lparr>duration = 25, deadline = 5, priority = 1\<rparr>)]"
      "[(''A_0'', \<lparr>duration = 25, deadline = 5, priority = 1\<rparr>)]" "''A_0''"
      "\<lparr>duration = 25, deadline = 5, priority = 1\<rparr>" 1 DiscreteQuadraticModel "{}" "{}"]
  by (simp add: split_one_long_task)

text \<open>
  C6 as stated fails: one task of duration 25 with \<open>max_task_duration = 25\<close> and a horizon
  of 24 hours gives the chunk \<open>A_0\<close> of duration 25, for which line 56 calls
  \<open>add_variable(0, label='A_0')\<close>; construction ends in dimod's \<open>ValueError\<close>, not in
  \<open>InfeasibleTaskError\<close>.
\<close>

theorem infeasible_chunk_counterexample:
  "init_dimod [(''A'', \<lparr>duration = 25, deadline = 5, priority = 1\<rparr>)] 1 {} 25 {}
     = Inl ValueError
   \<and> init_dimod [(''A'', \<lparr>duration = 25, deadline = 5, priority = 1\<rparr>)] 1 {} 25 {}
     \<noteq> Inl InfeasibleTaskError"
  using add_variables_dimod_infeasible[of "[(''A_0'', \<lparr>duration = 25, deadline = 5, priority = 1\<rparr>)]"
      "''A_0''" "\<lparr>duration = 25, deadline = 5, priority = 1\<rparr>" 24]
  by (simp add: init_dimod_def split_one_long_task)

subsection \<open>The penalties of the first pass\<close>

lemma registered_cases: "num_cases dqm v = Some n \<Longrightarrow> map_of (dqm_variables dqm) v \<noteq> None"
  by (simp add: num_cases_def)

text \<open>
  C8. In a model in which \<open>_add_variables\<close> has registered the chunks,
  \<open>_add_deadline_and_unavailable_penalties\<close> stores for every chunk and every start time
  \<open>t\<close> of its domain the combined penalty: the deadline penalty 10 is part of it exactly
  when \<open>t + duration > deadline\<close>, so at \<open>t + duration = deadline\<close> it is the unavailability
  term alone. These are integers; the rewards are added to them by the next pass.
\<close>

theorem deadline_penalty_boundary:
  assumes "distinct (map fst tasks)" and "(task, info) \<in> set tasks"
    and "\<forall>p\<in>set tasks. num_cases dqm (fst p) = Some (max_deadline - duration (snd p) + 1)"
    and "t \<in> set (start_times max_deadline info)"
  shows "\<exists>dqm'. add_deadline_and_unavailable_penalties max_deadline unavailable_hours tasks dqm
                  = Inr dqm'
     \<and> (t + duration info > deadline info \<longrightarrow>
          get_linear_case dqm' task t
            = Some (10 + (if t \<in> unavailable_hours then 10 else 0)))
     \<and> (t + duration info \<le> deadline info \<longrightarrow>
          get_linear_case dqm' task t = Some (if t \<in> unavailable_hours then 10 else 0))"
proof -
  have reg: "\<forall>p\<in>set tasks. map_of (dqm_variables dqm) (fst p) \<noteq> None"
    using assms(3) by (auto dest: registered_cases)
  have m: "map_of tasks task = Some info" using assms(1,2) by simp
  show ?thesis
    using add_deadline_and_unavailable_penalties_linear[OF refl assms(1) reg,
        of max_deadline unavailable_hours]
      nth_start_times[OF assms(4)] m
    by (simp add: get_linear_case_def)
qed

theorem deadline_penalty_boundary_witness:
  "\<exists>dqm'. add_deadline_and_unavailable_penalties 24 {} 
              [(''A_0'', \<lparr>duration = 1, deadline = 5, priority = 1\<rparr>)]
              \<lparr>dqm_variables = [(''A_0'', 24)], dqm_linear = Map.empty,
               dqm_quadratic = Map.empty\<rparr> = Inr dqm'
     \<and> get_linear_case dqm' ''A_0'' 5 = Some 10
     \<and> get_linear_case dqm' ''A_0'' 4 = Some 0"
proof -
  let ?tasks = "[(''A_0'', \<lparr>duration = 1, deadline = 5, priority = 1\<rparr>)]"
  let ?dqm = "\<lparr>dqm_variables = [(''A_0'', 24)], dqm_linear = Map.empty,
               dqm_quadratic = Map.empty\<rparr>"
  have 5: "\<exists>dqm'. add_deadline_and_unavailable_penalties 24 {} ?tasks ?dqm = Inr dqm'
      \<and> get_linear_case dqm' ''A_0'' 5 = Some 10"
    using deadline_penalty_boundary[of ?tasks "''A_0''"
        "\<lparr>duration = 1, deadline = 5, priority = 1\<rparr>" ?dqm 24 5 "{}"]
    by (simp add: num_cases_def start_times_def range_py_def)
  have 4: "\<exists>dqm'. add_deadline_and_unavailable_penalties 24 {} ?tasks ?dqm = Inr dqm'
      \<and> get_linear_case dqm' ''A_0'' 4 = Some 0"
    using deadline_penalty_boundary[of ?tasks "''A_0''"
        "\<lparr>duration = 1, deadline = 5, priority = 1\<rparr>" ?dqm 24 4 "{}"]
    by (simp add: num_cases_def start_times_def range_py_def)
  from 5 4 show ?thesis by auto
qed

end
